theory Spec2Isabelle
  imports Main "HOL-Library.Word"
begin

section \<open>JavaScript values and strings\<close>

text \<open>
  The background script \<^verbatim>\<open>src/background/listen.js\<close> is embedded function by
  function: \<^verbatim>\<open>encodeURL\<close>, \<^verbatim>\<open>exemptTab\<close>, \<^verbatim>\<open>isExempt\<close>, \<^verbatim>\<open>onBeforeRequest\<close>,
  \<^verbatim>\<open>toggleNeverAsk\<close>, \<^verbatim>\<open>redirectTab\<close>, \<^verbatim>\<open>postMessage\<close>, \<^verbatim>\<open>moveTabToGroup\<close>,
  \<^verbatim>\<open>onPortMessage\<close>, \<^verbatim>\<open>onMessage\<close> and \<^verbatim>\<open>onTabCreated\<close>.
  A JavaScript string is its sequence of UTF-16 code units.  The values the handlers
  pass around (group identifiers, flags read from messages and from storage) are
  primitive values.  A number is kept by its integer value (tab ids, window ids,
  counters), so \<^verbatim>\<open>NaN\<close>, the infinities and fractions are outside the model; up to
  \<^verbatim>\<open>2^53\<close> in magnitude every integer is the value of exactly one number, and a larger
  integer stands for a number only when a double has that value.
\<close>

type_synonym jsstring = "16 word list"

definition lit :: "string \<Rightarrow> jsstring" where
  "lit s = map (\<lambda>c. of_nat (of_char c)) s"

datatype jsval = JUndefined | JNull | JBool bool | JNum int | JStr jsstring

text \<open>\<^verbatim>\<open>ToBoolean\<close>: what \<^verbatim>\<open>if(v)\<close> and \<^verbatim>\<open>!v\<close> test.\<close>

fun truthy :: "jsval \<Rightarrow> bool" where
  "truthy JUndefined = False"
| "truthy JNull = False"
| "truthy (JBool b) = b"
| "truthy (JNum n) = (n \<noteq> 0)"
| "truthy (JStr s) = (s \<noteq> [])"

datatype error = URIError | TypeError

text \<open>
  \<^verbatim>\<open>Number.prototype.toString(radix)\<close> on a non-negative integer of at most
  \<^verbatim>\<open>2^53\<close>: all its digits, \<^verbatim>\<open>0-9\<close> and \<^verbatim>\<open>a-z\<close>, no leading zero.
\<close>

definition digit_char :: "nat \<Rightarrow> 16 word" where
  "digit_char d = (if d < 10 then of_nat (48 + d) else of_nat (87 + d))"

function toStringRadix :: "nat \<Rightarrow> nat \<Rightarrow> jsstring" where
  "toStringRadix radix n =
     (if radix < 2 \<or> n < radix then [digit_char n]
      else toStringRadix radix (n div radix) @ [digit_char (n mod radix)])"
  by pat_completeness auto
termination
  by (relation "measure snd") auto

declare toStringRadix.simps [simp del]

section \<open>Percent-encoding\<close>

text \<open>
  \<^verbatim>\<open>encodeURL\<close> (lines 15-20) calls the built-in \<^verbatim>\<open>encodeURIComponent\<close> and then
  replaces every match of \<^verbatim>\<open>/[!'()*]/g\<close> by \<^verbatim>\<open>%\<close> followed by the character's code
  in base 16.  The built-ins follow the abstract operations \<^verbatim>\<open>Encode\<close> and
  \<^verbatim>\<open>Decode\<close> of ECMA-262, written here as recursion over the remaining code units
  instead of a loop over an index.  An exception is the value \<open>Inl\<close>.
\<close>

definition prepend :: "jsstring \<Rightarrow> error + jsstring \<Rightarrow> error + jsstring" where
  "prepend p r = (case r of Inl e \<Rightarrow> Inl e | Inr s \<Rightarrow> Inr (p @ s))"

text \<open>The code units \<^verbatim>\<open>encodeURIComponent\<close> leaves alone: \<^verbatim>\<open>A-Z a-z 0-9 _ - . ! ~ * ' ( )\<close>.\<close>

definition unescaped :: "16 word \<Rightarrow> bool" where
  "unescaped c = (let n = unat c in
     (65 \<le> n \<and> n \<le> 90) \<or> (97 \<le> n \<and> n \<le> 122) \<or> (48 \<le> n \<and> n \<le> 57)
     \<or> n \<in> {95, 45, 46, 33, 126, 42, 39, 40, 41})"

text \<open>
  \<^verbatim>\<open>CodePointAt\<close>: a leading surrogate followed by a trailing one is one code point;
  a surrogate on its own makes \<^verbatim>\<open>Encode\<close> throw a URIError.
\<close>

definition is_leading_surrogate :: "16 word \<Rightarrow> bool" where
  "is_leading_surrogate c = (0xD800 \<le> unat c \<and> unat c \<le> 0xDBFF)"

definition is_trailing_surrogate :: "16 word \<Rightarrow> bool" where
  "is_trailing_surrogate c = (0xDC00 \<le> unat c \<and> unat c \<le> 0xDFFF)"

definition UTF16SurrogatePairToCodePoint :: "16 word \<Rightarrow> 16 word \<Rightarrow> nat" where
  "UTF16SurrogatePairToCodePoint lead trail =
     (unat lead - 0xD800) * 0x400 + (unat trail - 0xDC00) + 0x10000"

text \<open>The UTF-8 octets of a code point, and their \<^verbatim>\<open>%XX\<close> form in upper-case digits.\<close>

definition utf8_octets :: "nat \<Rightarrow> nat list" where
  "utf8_octets cp =
     (if cp < 0x80 then [cp]
      else if cp < 0x800 then [0xC0 + cp div 64, 0x80 + cp mod 64]
      else if cp < 0x10000 then [0xE0 + cp div 4096, 0x80 + cp div 64 mod 64, 0x80 + cp mod 64]
      else [0xF0 + cp div 262144, 0x80 + cp div 4096 mod 64, 0x80 + cp div 64 mod 64,
            0x80 + cp mod 64])"

definition upper_hex :: "nat \<Rightarrow> 16 word" where
  "upper_hex d = (if d < 10 then of_nat (48 + d) else of_nat (55 + d))"

definition escape_octets :: "nat list \<Rightarrow> jsstring" where
  "escape_octets bs = concat (map (\<lambda>b. [0x25, upper_hex (b div 16), upper_hex (b mod 16)]) bs)"

fun Encode :: "jsstring \<Rightarrow> error + jsstring" where
  "Encode [] = Inr []"
| "Encode (c # s) =
     (if unescaped c then prepend [c] (Encode s)
      else if is_trailing_surrogate c then Inl URIError
      else if is_leading_surrogate c then
        (case s of
           [] \<Rightarrow> Inl URIError
         | d # s' \<Rightarrow>
             if is_trailing_surrogate d
             then prepend (escape_octets (utf8_octets (UTF16SurrogatePairToCodePoint c d)))
                    (Encode s')
             else Inl URIError)
      else prepend (escape_octets (utf8_octets (unat c))) (Encode s))"

definition encodeURIComponent :: "jsstring \<Rightarrow> error + jsstring" where
  "encodeURIComponent s = Encode s"

text \<open>The characters \<^verbatim>\<open>! ' ( ) *\<close> that the regular expression of line 16 matches.\<close>

definition special :: "16 word \<Rightarrow> bool" where
  "special c = (c \<in> {0x21, 0x27, 0x28, 0x29, 0x2A})"

definition replace_special :: "jsstring \<Rightarrow> jsstring" where
  "replace_special s =
     concat (map (\<lambda>c. if special c then 0x25 # toStringRadix 16 (unat c) else [c]) s)"

definition encodeURL :: "jsstring \<Rightarrow> error + jsstring" where
  "encodeURL url = (case encodeURIComponent url of Inl e \<Rightarrow> Inl e | Inr s \<Rightarrow> Inr (replace_special s))"

text \<open>
  \<^verbatim>\<open>decodeURIComponent\<close>, the standard decoding the confirmation page applies to the
  \<^verbatim>\<open>url\<close> parameter.  \<^verbatim>\<open>Decode\<close> reads \<^verbatim>\<open>%XX\<close>; the number of leading 1 bits of
  the octet says how many continuation octets follow, each again as \<^verbatim>\<open>%XX\<close>; the
  octets must be the UTF-8 encoding of a code point (not overlong, not a surrogate, at
  most \<^verbatim>\<open>0x10FFFF\<close>).
\<close>

definition hex_value :: "16 word \<Rightarrow> nat option" where
  "hex_value c = (let n = unat c in
     if 48 \<le> n \<and> n \<le> 57 then Some (n - 48)
     else if 65 \<le> n \<and> n \<le> 70 then Some (n - 55)
     else if 97 \<le> n \<and> n \<le> 102 then Some (n - 87)
     else None)"

definition ParseHexOctet :: "16 word \<Rightarrow> 16 word \<Rightarrow> nat option" where
  "ParseHexOctet h l =
     (case hex_value h of None \<Rightarrow> None
      | Some a \<Rightarrow> (case hex_value l of None \<Rightarrow> None | Some b \<Rightarrow> Some (16 * a + b)))"

definition leading_ones :: "nat \<Rightarrow> nat" where
  "leading_ones B =
     (if B < 0x80 then 0 else if B < 0xC0 then 1 else if B < 0xE0 then 2
      else if B < 0xF0 then 3 else if B < 0xF8 then 4 else 5)"

fun continuation_octets :: "nat \<Rightarrow> jsstring \<Rightarrow> (nat list \<times> jsstring) option" where
  "continuation_octets 0 s = Some ([], s)"
| "continuation_octets (Suc j) (p # h # l # s) =
     (if p \<noteq> 0x25 then None
      else (case ParseHexOctet h l of
              None \<Rightarrow> None
            | Some b \<Rightarrow> (case continuation_octets j s of
                          None \<Rightarrow> None
                        | Some (bs, r) \<Rightarrow> Some (b # bs, r))))"
| "continuation_octets (Suc j) _ = None"

definition is_continuation :: "nat \<Rightarrow> bool" where
  "is_continuation b = (0x80 \<le> b \<and> b < 0xC0)"

fun utf8_code_point :: "nat list \<Rightarrow> nat option" where
  "utf8_code_point [b1, b2] =
     (let V = (b1 - 0xC0) * 64 + (b2 - 0x80)
      in if is_continuation b2 \<and> 0x80 \<le> V then Some V else None)"
| "utf8_code_point [b1, b2, b3] =
     (let V = (b1 - 0xE0) * 4096 + (b2 - 0x80) * 64 + (b3 - 0x80)
      in if is_continuation b2 \<and> is_continuation b3 \<and> 0x800 \<le> V
            \<and> \<not> (0xD800 \<le> V \<and> V \<le> 0xDFFF)
         then Some V else None)"
| "utf8_code_point [b1, b2, b3, b4] =
     (let V = (b1 - 0xF0) * 262144 + (b2 - 0x80) * 4096 + (b3 - 0x80) * 64 + (b4 - 0x80)
      in if is_continuation b2 \<and> is_continuation b3 \<and> is_continuation b4
            \<and> 0x10000 \<le> V \<and> V \<le> 0x10FFFF
         then Some V else None)"
| "utf8_code_point _ = None"

definition UTF16EncodeCodePoint :: "nat \<Rightarrow> jsstring" where
  "UTF16EncodeCodePoint cp =
     (if cp \<le> 0xFFFF then [of_nat cp]
      else [of_nat ((cp - 0x10000) div 0x400 + 0xD800),
            of_nat ((cp - 0x10000) mod 0x400 + 0xDC00)])"

text \<open>The octets read never extend the rest of the string, so \<open>Decode\<close> terminates.\<close>

lemma continuation_octets_length:
  "continuation_octets j s = Some (bs, r) \<Longrightarrow> length r \<le> length s"
proof (induction j s arbitrary: bs r rule: continuation_octets.induct)
  case (1 s)
  then show ?case by simp
next
  case (2 j p h l s)
  then show ?case
    by (fastforce split: if_splits option.splits)
qed simp_all

function Decode :: "jsstring \<Rightarrow> error + jsstring" where
  "Decode [] = Inr []"
| "Decode (c # s) =
     (if c \<noteq> 0x25 then prepend [c] (Decode s)
      else (case s of
              h # l # s' \<Rightarrow>
                (case ParseHexOctet h l of
                   None \<Rightarrow> Inl URIError
                 | Some B \<Rightarrow>
                     if leading_ones B = 0 then prepend [of_nat B] (Decode s')
                     else if leading_ones B = 1 \<or> leading_ones B > 4 then Inl URIError
                     else (case continuation_octets (leading_ones B - 1) s' of
                             None \<Rightarrow> Inl URIError
                           | Some (bs, r) \<Rightarrow>
                               (case utf8_code_point (B # bs) of
                                  None \<Rightarrow> Inl URIError
                                | Some V \<Rightarrow> prepend (UTF16EncodeCodePoint V) (Decode r))))
            | _ \<Rightarrow> Inl URIError))"
  by pat_completeness auto
termination
  by (relation "measure length") (auto dest: continuation_octets_length)

definition decodeURIComponent :: "jsstring \<Rightarrow> error + jsstring" where
  "decodeURIComponent s = Decode s"


text \<open>
  A string is well formed when every surrogate is part of a pair
  (\<^verbatim>\<open>IsStringWellFormedUnicode\<close>).  The serialisation of a URL is.
\<close>

fun well_formed :: "jsstring \<Rightarrow> bool" where
  "well_formed [] = True"
| "well_formed (c # s) =
     (if is_leading_surrogate c then
        (case s of [] \<Rightarrow> False | d # s' \<Rightarrow> is_trailing_surrogate d \<and> well_formed s')
      else \<not> is_trailing_surrogate c \<and> well_formed s)"

section \<open>The state of the background page and of the browser stores it uses\<close>

text \<open>
  \<^verbatim>\<open>_exemptTabs\<close> is a \<^verbatim>\<open>Map\<close> object.  The script reaches it in two ways: through
  the Map methods \<^verbatim>\<open>has\<close> and \<^verbatim>\<open>delete\<close>, which see the Map's entries, and through
  \<^verbatim>\<open>_exemptTabs[tabId]\<close>, which reads and writes an own property of the object.  The
  two are separate stores, so the state has both: \<open>exemptTabs_keys\<close> is the set of keys
  of the Map's entries (nothing in the script reads an entry's value),
  \<open>exemptTabs_props\<close> the properties indexed by tab id.

  \<^verbatim>\<open>browser.storage.local\<close> holds, under a \<^verbatim>\<open>page:<domain>\<close> key, an object with the
  fields \<^verbatim>\<open>group\<close> and \<^verbatim>\<open>neverAsk\<close> (a field that is absent reads as
  \<^verbatim>\<open>undefined\<close>), and under the keys of \<^verbatim>\<open>ensureDefaultSettings\<close> a boolean.
  \<^verbatim>\<open>browser.sessions\<close> keeps a value per tab and key and per window and key.

  \<open>ports\<close> is the Map \<^verbatim>\<open>_ports\<close> in insertion order, a port being known by a
  handle.  \<open>calls\<close> is the sequence of calls made so far to the browser that act on
  the outside (navigations, history deletions, messages posted on ports), oldest first.
  \<open>pending\<close> are the \<^verbatim>\<open>then\<close> callbacks of line 97 whose \<^verbatim>\<open>tabs.update\<close> promise
  has not settled yet, each with the \<^verbatim>\<open>originalUrl\<close> it closes over.

  A handler runs from start to end without another handler in between: the points where
  an \<^verbatim>\<open>async\<close> function waits are not modelled.
\<close>

record page_settings =
  group :: jsval
  neverAsk :: jsval

datatype stored = Page page_settings | Flag bool

datatype notice = MoveTabGroup int jsval | Connected

datatype call =
    TabsUpdate int jsstring
  | HistoryDeleteUrl jsstring
  | PortPostMessage nat notice

record world =
  exemptTabs_keys :: "int set"
  exemptTabs_props :: "int \<rightharpoonup> jsstring set"
  ports :: "(int \<times> nat) list"
  storage_local :: "jsstring \<rightharpoonup> stored"
  tab_values :: "int \<times> jsstring \<rightharpoonup> jsval"
  window_values :: "int \<times> jsstring \<rightharpoonup> jsval"
  calls :: "call list"
  pending :: "jsstring list"

text \<open>The state when the script has just been loaded and nothing is stored.\<close>

definition fresh :: world where
  "fresh = \<lparr>exemptTabs_keys = {}, exemptTabs_props = Map.empty, ports = [],
     storage_local = Map.empty, tab_values = Map.empty, window_values = Map.empty,
     calls = [], pending = []\<rparr>"

text \<open>
  What the script takes from its host without computing it: the host name of a URL
  (\<^verbatim>\<open>new URL(u).hostname\<close>, \<open>None\<close> when the constructor throws a TypeError), the
  address of a file of the extension (\<^verbatim>\<open>browser.extension.getURL\<close>), and how the
  engine writes a number of magnitude above \<^verbatim>\<open>2^53\<close> (there \<^verbatim>\<open>Number::toString\<close>
  rounds to the shortest digits that identify the number, and from \<^verbatim>\<open>1e21\<close> on uses
  the exponent form).
\<close>

record browser_env =
  url_hostname :: "jsstring \<Rightarrow> jsstring option"
  getURL :: "jsstring \<Rightarrow> jsstring"
  Number_toString :: "int \<Rightarrow> jsstring"

text \<open>
  \<^verbatim>\<open>ToString\<close>: what a template literal \<^verbatim>\<open>${v}\<close> inserts.  A number of magnitude at
  most \<^verbatim>\<open>2^53\<close> is written with all its decimal digits.
\<close>

fun ToString :: "browser_env \<Rightarrow> jsval \<Rightarrow> jsstring" where
  "ToString env JUndefined = lit ''undefined''"
| "ToString env JNull = lit ''null''"
| "ToString env (JBool b) = (if b then lit ''true'' else lit ''false'')"
| "ToString env (JNum n) =
     (if \<bar>n\<bar> \<le> 9007199254740992
      then (if n < 0 then 0x2D # toStringRadix 10 (nat (- n)) else toStringRadix 10 (nat n))
      else Number_toString env n)"
| "ToString env (JStr s) = s"

text \<open>
  \<^verbatim>\<open>browser.sessions\<close>: a value that was never set reads as \<^verbatim>\<open>undefined\<close>, and
  setting a value stores what is given (after storing \<^verbatim>\<open>undefined\<close> the value reads
  as \<^verbatim>\<open>undefined\<close>).
\<close>

definition getTabValue :: "world \<Rightarrow> int \<Rightarrow> jsstring \<Rightarrow> jsval" where
  "getTabValue w tab key = (case tab_values w (tab, key) of None \<Rightarrow> JUndefined | Some v \<Rightarrow> v)"

definition setTabValue :: "int \<Rightarrow> jsstring \<Rightarrow> jsval \<Rightarrow> world \<Rightarrow> world" where
  "setTabValue tab key v w = w\<lparr>tab_values := (tab_values w)((tab, key) \<mapsto> v)\<rparr>"

definition getWindowValue :: "world \<Rightarrow> int \<Rightarrow> jsstring \<Rightarrow> jsval" where
  "getWindowValue w win key =
     (case window_values w (win, key) of None \<Rightarrow> JUndefined | Some v \<Rightarrow> v)"

definition setWindowValue :: "int \<Rightarrow> jsstring \<Rightarrow> jsval \<Rightarrow> world \<Rightarrow> world" where
  "setWindowValue win key v w = w\<lparr>window_values := (window_values w)((win, key) \<mapsto> v)\<rparr>"

text \<open>
  Reading the fields of what \<^verbatim>\<open>storage.local.get\<close> returned under the key: a boolean
  has neither field.
\<close>

fun settings_neverAsk :: "stored \<Rightarrow> jsval" where
  "settings_neverAsk (Page r) = neverAsk r"
| "settings_neverAsk (Flag b) = JUndefined"

fun settings_group :: "stored \<Rightarrow> jsval" where
  "settings_group (Page r) = group r"
| "settings_group (Flag b) = JUndefined"

section \<open>Exemptions\<close>

text \<open>
  \<^verbatim>\<open>exemptTab\<close> (lines 22-29) tests \<^verbatim>\<open>_exemptTabs.has(tabId)\<close> and then assigns or
  reads the property \<^verbatim>\<open>_exemptTabs[tabId]\<close>.  In the \<^verbatim>\<open>else\<close> branch a missing
  property is \<^verbatim>\<open>undefined\<close>, and calling \<^verbatim>\<open>add\<close> on it throws a TypeError.
\<close>

definition exemptTab :: "int \<Rightarrow> jsstring \<Rightarrow> world \<Rightarrow> error + world" where
  "exemptTab tab domainName w =
     (if tab \<notin> exemptTabs_keys w
      then Inr (w\<lparr>exemptTabs_props := (exemptTabs_props w)(tab \<mapsto> {domainName})\<rparr>)
      else (case exemptTabs_props w tab of
              None \<Rightarrow> Inl TypeError
            | Some s \<Rightarrow> Inr (w\<lparr>exemptTabs_props :=
                               (exemptTabs_props w)(tab \<mapsto> insert domainName s)\<rparr>)))"

text \<open>
  \<^verbatim>\<open>isExempt\<close> (lines 31-34) returns \<^verbatim>\<open>set && set.has(domainName)\<close>: \<^verbatim>\<open>undefined\<close>
  when the property is missing, a boolean otherwise.
\<close>

definition isExempt :: "world \<Rightarrow> int \<Rightarrow> jsstring \<Rightarrow> jsval" where
  "isExempt w tab domainName =
     (case exemptTabs_props w tab of
        None \<Rightarrow> JUndefined
      | Some s \<Rightarrow> JBool (domainName \<in> s))"

section \<open>The navigation decision\<close>

text \<open>
  \<^verbatim>\<open>onBeforeRequest\<close> (lines 36-78) returns \<^verbatim>\<open>{}\<close> (the request proceeds) or
  \<^verbatim>\<open>{redirectUrl: url}\<close>.  \<^verbatim>\<open>browser.tabs.get(options.tabId)\<close> resolves to the tab
  that makes the request, so \<^verbatim>\<open>tab.id\<close> is \<^verbatim>\<open>options.tabId\<close>.  The function returns
  the state next to its result, as every handler does.
\<close>

record options =
  frameId :: int
  tabId :: int
  url :: jsstring

datatype decision = Proceed | Redirect jsstring

definition onBeforeRequest ::
  "browser_env \<Rightarrow> options \<Rightarrow> world \<Rightarrow> (error + decision) \<times> world" where
  "onBeforeRequest env options w =
     (if frameId options \<noteq> 0 \<or> tabId options = - 1 then (Inr Proceed, w)
      else (case url_hostname env (url options) of
              None \<Rightarrow> (Inl TypeError, w)
            | Some domainName \<Rightarrow>
                let key = lit ''page:'' @ domainName in
                if truthy (isExempt w (tabId options) domainName) then (Inr Proceed, w)
                else (case storage_local w key of
                        None \<Rightarrow> (Inr Proceed, w)
                      | Some settings \<Rightarrow>
                          if truthy (settings_neverAsk settings) then (Inr Proceed, w)
                          else let groupId = getTabValue w (tabId options) (lit ''group-id'') in
                            if \<not> truthy groupId then (Inr Proceed, w)
                            else if groupId \<noteq> settings_group settings then
                              (case encodeURL (url options) of
                                 Inl e \<Rightarrow> (Inl e, w)
                               | Inr encoded \<Rightarrow>
                                   (Inr (Redirect
                                      (getURL env (lit ''/background/confirm.html'')
                                       @ lit ''?url='' @ encoded
                                       @ lit ''&groupId='' @ ToString env (settings_group settings)
                                       @ lit ''&tabId='' @ ToString env (JNum (tabId options)))),
                                    w))
                            else (Inr Proceed, w))))"

section \<open>Messages from the user interface\<close>

text \<open>
  A message is an object with a \<^verbatim>\<open>method\<close> and the fields that method uses;
  \<open>m_groupId\<close> is \<open>None\<close> when the object has no own property \<^verbatim>\<open>groupId\<close>.
\<close>

record message =
  m_method :: jsstring
  m_hostname :: jsstring
  m_neverAsk :: jsval
  m_tabId :: int
  m_redirectUrl :: jsstring
  m_originalUrl :: jsstring
  m_exempt :: jsval
  m_groupId :: "jsval option"
  m_windowId :: int

definition groupId_of :: "message \<Rightarrow> jsval" where
  "groupId_of message = (case m_groupId message of None \<Rightarrow> JUndefined | Some g \<Rightarrow> g)"

text \<open>
  \<^verbatim>\<open>toggleNeverAsk\<close> (lines 80-91).  On a boolean the assignment of line 89 has no
  effect (the script is not in strict mode) and line 90 stores the value back.
\<close>

definition toggleNeverAsk :: "jsstring \<Rightarrow> jsval \<Rightarrow> world \<Rightarrow> error + world" where
  "toggleNeverAsk domainName v w =
     (let key = lit ''page:'' @ domainName in
      case storage_local w key of
        None \<Rightarrow> Inr w
      | Some (Page r) \<Rightarrow>
          Inr (w\<lparr>storage_local := (storage_local w)(key \<mapsto> Page (r\<lparr>neverAsk := v\<rparr>))\<rparr>)
      | Some (Flag b) \<Rightarrow>
          Inr (w\<lparr>storage_local := (storage_local w)(key \<mapsto> Flag b)\<rparr>))"

text \<open>
  \<^verbatim>\<open>redirectTab\<close> (lines 93-100) calls \<^verbatim>\<open>browser.tabs.update\<close> and registers the
  callback that deletes the history entry.  \<open>settle i fulfilled\<close> is the browser settling
  the promise of the \<open>i\<close>-th pending callback: when the promise is fulfilled the callback
  runs and calls \<^verbatim>\<open>browser.history.deleteUrl\<close>; when it is rejected the callback is
  dropped.
\<close>

definition redirectTab :: "message \<Rightarrow> world \<Rightarrow> world" where
  "redirectTab message w =
     w\<lparr>calls := calls w @ [TabsUpdate (m_tabId message) (m_redirectUrl message)],
       pending := pending w @ [m_originalUrl message]\<rparr>"

definition settle :: "nat \<Rightarrow> bool \<Rightarrow> world \<Rightarrow> world" where
  "settle i fulfilled w =
     (if i < length (pending w) then
        (let w' = w\<lparr>pending := take i (pending w) @ drop (Suc i) (pending w)\<rparr>
         in if fulfilled then w'\<lparr>calls := calls w' @ [HistoryDeleteUrl (pending w ! i)]\<rparr>
            else w')
      else w)"

text \<open>\<^verbatim>\<open>postMessage\<close> (lines 9-13): one call per port, in the order of \<^verbatim>\<open>_ports.values()\<close>.\<close>

definition postMessage :: "notice \<Rightarrow> world \<Rightarrow> world" where
  "postMessage msg w = w\<lparr>calls := calls w @ map (\<lambda>(win, port). PortPostMessage port msg) (ports w)\<rparr>"

text \<open>\<^verbatim>\<open>moveTabToGroup\<close> (lines 102-110).\<close>

definition moveTabToGroup :: "message \<Rightarrow> world \<Rightarrow> world" where
  "moveTabToGroup message w =
     postMessage (MoveTabGroup (m_tabId message) (groupId_of message))
       (redirectTab message
         (setTabValue (m_tabId message) (lit ''group-id'') (groupId_of message) w))"

text \<open>\<^verbatim>\<open>onPortMessage\<close> (lines 112-119): \<^verbatim>\<open>Map.delete\<close> removes an entry of the Map.\<close>

definition onPortMessage :: "message \<Rightarrow> world \<Rightarrow> world" where
  "onPortMessage message w =
     (if m_method message = lit ''invalidateExempt''
      then w\<lparr>exemptTabs_keys := exemptTabs_keys w - {m_tabId message}\<rparr>
      else if m_method message = lit ''activeGroup''
      then setWindowValue (m_windowId message) (lit ''active-group-id'') (groupId_of message) w
      else w)"

text \<open>
  \<^verbatim>\<open>onMessage\<close> (lines 127-144).  \<^verbatim>\<open>toggleNeverAsk\<close> is asynchronous and not awaited:
  an exception in it rejects a promise nobody looks at, and the handler returns normally.
\<close>

definition onMessage :: "browser_env \<Rightarrow> message \<Rightarrow> world \<Rightarrow> error + world" where
  "onMessage env message w =
     (if m_method message = lit ''neverAsk'' then
        (case toggleNeverAsk (m_hostname message) (m_neverAsk message) w of
           Inl e \<Rightarrow> Inr w
         | Inr w' \<Rightarrow> Inr w')
      else if m_method message = lit ''redirectTab'' then
        (case (if truthy (m_exempt message) then
                 (case url_hostname env (m_redirectUrl message) of
                    None \<Rightarrow> Inl TypeError
                  | Some domainName \<Rightarrow> exemptTab (m_tabId message) domainName w)
               else Inr w) of
           Inl e \<Rightarrow> Inl e
         | Inr w' \<Rightarrow>
             if m_groupId message \<noteq> None then Inr (moveTabToGroup message w')
             else Inr (redirectTab message w'))
      else Inr w)"

section \<open>Tabs\<close>

text \<open>\<^verbatim>\<open>onTabCreated\<close> (lines 199-202).\<close>

record tabInfo =
  info_id :: int
  info_windowId :: int

definition onTabCreated :: "tabInfo \<Rightarrow> world \<Rightarrow> world" where
  "onTabCreated info w =
     (let groupId = getWindowValue w (info_windowId info) (lit ''active-group-id'')
      in setTabValue (info_id info) (lit ''group-id'') groupId w)"

section \<open>A small browsing session\<close>

text \<open>
  Concrete data on which the properties below are instantiated: an environment that
  knows one URL (no number above \<^verbatim>\<open>2^53\<close> occurs, so its way of writing one is never
  used), a tab 7 in group \<^verbatim>\<open>g1\<close> in window 1, whose active group is \<^verbatim>\<open>g3\<close>,
  one connected port, and a policy for the domain \<^verbatim>\<open>d\<close> that puts it in group
  \<^verbatim>\<open>g2\<close>.
\<close>

definition example_env :: browser_env where
  "example_env =
     \<lparr>url_hostname = (\<lambda>u. if u = lit ''http://d/'' then Some (lit ''d'') else None),
      getURL = (\<lambda>path. lit ''moz-extension://x'' @ path),
      Number_toString = (\<lambda>n. lit ''1e+21'')\<rparr>"

definition example_options :: options where
  "example_options = \<lparr>frameId = 0, tabId = 7, url = lit ''http://d/''\<rparr>"

definition example_world :: world where
  "example_world = fresh
     \<lparr>ports := [(1, 0)],
      storage_local := [lit ''page:d'' \<mapsto> Page \<lparr>group = JStr (lit ''g2''), neverAsk = JBool False\<rparr>],
      tab_values := [(7, lit ''group-id'') \<mapsto> JStr (lit ''g1'')],
      window_values := [(1, lit ''active-group-id'') \<mapsto> JStr (lit ''g3'')]\<rparr>"

text \<open>The message of the confirmation page that sends tab 7 on to \<^verbatim>\<open>http://d/\<close>.\<close>

definition example_message :: message where
  "example_message =
     \<lparr>m_method = lit ''redirectTab'', m_hostname = [], m_neverAsk = JUndefined, m_tabId = 7,
      m_redirectUrl = lit ''http://d/'', m_originalUrl = lit ''moz-extension://x/c'',
      m_exempt = JBool True, m_groupId = None, m_windowId = 1\<rparr>"

text \<open>The same session with 0 stored as the group of tab 7.\<close>

definition example_world_group0 :: world where
  "example_world_group0 = example_world\<lparr>tab_values := [(7, lit ''group-id'') \<mapsto> JNum 0]\<rparr>"

section \<open>Decoding what was encoded\<close>

lemma unat_of_nat_16: "n < 65536 \<Longrightarrow> unat (of_nat n :: 16 word) = n"
  by (simp add: unat_of_nat)

lemma unat_lt_16: "unat (c :: 16 word) < 65536"
  using unsigned_less [of c, where 'a = nat] by simp

lemma unat_upper_hex:
  "d < 16 \<Longrightarrow> unat (upper_hex d) = (if d < 10 then 48 + d else 55 + d)"
  unfolding upper_hex_def by (simp add: unat_of_nat_16 del: of_nat_add)

lemma hex_value_upper_hex: "d < 16 \<Longrightarrow> hex_value (upper_hex d) = Some d"
  by (simp add: hex_value_def unat_upper_hex)

lemma ParseHexOctet_upper_hex:
  "b < 256 \<Longrightarrow> ParseHexOctet (upper_hex (b div 16)) (upper_hex (b mod 16)) = Some b"
proof -
  assume "b < 256"
  then have "b div 16 < 16" by simp
  then show ?thesis
    by (simp add: ParseHexOctet_def hex_value_upper_hex)
qed

lemma escape_octets_Cons:
  "escape_octets (b # bs) = 0x25 # upper_hex (b div 16) # upper_hex (b mod 16) # escape_octets bs"
  by (simp add: escape_octets_def)

lemma escape_octets_Nil: "escape_octets [] = []"
  by (simp add: escape_octets_def)

lemma continuation_octets_escape:
  "\<forall>b \<in> set bs. b < 256 \<Longrightarrow>
   continuation_octets (length bs) (escape_octets bs @ r) = Some (bs, r)"
  by (induction bs) (simp_all add: escape_octets_Cons escape_octets_Nil ParseHexOctet_upper_hex)


lemma Decode_single:
  "B < 128 \<Longrightarrow> Decode (escape_octets [B] @ r) = prepend [of_nat B] (Decode r)"
  by (simp add: escape_octets_Cons escape_octets_Nil ParseHexOctet_upper_hex leading_ones_def)

lemma Decode_multi:
  assumes "B < 256" "2 \<le> leading_ones B" "leading_ones B \<le> 4"
    and "length bs = leading_ones B - 1" "\<forall>b \<in> set bs. b < 256"
    and "utf8_code_point (B # bs) = Some V"
  shows "Decode (escape_octets (B # bs) @ r) = prepend (UTF16EncodeCodePoint V) (Decode r)"
proof -
  have "continuation_octets (leading_ones B - 1) (escape_octets bs @ r) = Some (bs, r)"
    using continuation_octets_escape [OF assms(5), of r] assms(4) by simp
  with assms show ?thesis
    by (simp add: escape_octets_Cons ParseHexOctet_upper_hex)
qed

lemma code_point_split2: "(cp::nat) div 64 * 64 + cp mod 64 = cp"
  by simp

lemma code_point_split3: "(cp::nat) div 4096 * 4096 + cp div 64 mod 64 * 64 + cp mod 64 = cp"
proof -
  have h: "cp div 4096 = cp div 64 div 64"
    using div_mult2_eq [of cp 64 64] by simp
  have "cp div 64 = cp div 64 div 64 * 64 + cp div 64 mod 64"
    by simp
  then have "cp div 64 * 64 = cp div 4096 * 4096 + cp div 64 mod 64 * 64"
    using h by linarith
  then show ?thesis
    using div_mult_mod_eq [of cp 64] by linarith
qed

lemma code_point_split4:
  "(cp::nat) div 262144 * 262144 + cp div 4096 mod 64 * 4096 + cp div 64 mod 64 * 64 + cp mod 64 = cp"
proof -
  have h: "cp div 262144 = cp div 4096 div 64"
    using div_mult2_eq [of cp 4096 64] by simp
  have "cp div 4096 = cp div 4096 div 64 * 64 + cp div 4096 mod 64"
    by simp
  then have "cp div 4096 * 4096 = cp div 262144 * 262144 + cp div 4096 mod 64 * 4096"
    using h by linarith
  then show ?thesis
    using code_point_split3 [of cp] by linarith
qed

lemma mod_64_less_128: "(x::nat) mod 64 < 128"
proof -
  have "x mod 64 < 64" by simp
  then show ?thesis by linarith
qed

lemma Decode_escape_code_point:
  assumes "cp < 0x110000" "\<not> (0xD800 \<le> cp \<and> cp \<le> 0xDFFF)"
  shows "Decode (escape_octets (utf8_octets cp) @ r) = prepend (UTF16EncodeCodePoint cp) (Decode r)"
proof -
  consider "cp < 0x80" | "0x80 \<le> cp" "cp < 0x800" | "0x800 \<le> cp" "cp < 0x10000"
    | "0x10000 \<le> cp"
    by linarith
  then show ?thesis
  proof cases
    case 1
    then show ?thesis
      using Decode_single [of cp r] by (simp add: utf8_octets_def UTF16EncodeCodePoint_def)
  next
    case 2
    then have d: "cp div 64 < 32" "2 \<le> cp div 64" by simp_all
    have "Decode (escape_octets [0xC0 + cp div 64, 0x80 + cp mod 64] @ r)
            = prepend (UTF16EncodeCodePoint cp) (Decode r)"
    proof (rule Decode_multi)
      show "utf8_code_point [0xC0 + cp div 64, 0x80 + cp mod 64] = Some cp"
        using 2 by (simp add: is_continuation_def)
    qed (use d in \<open>simp_all add: leading_ones_def mod_64_less_128\<close>)
    with 2 show ?thesis by (simp add: utf8_octets_def)
  next
    case 3
    then have d: "cp div 4096 < 16" by simp
    have "Decode (escape_octets [0xE0 + cp div 4096, 0x80 + cp div 64 mod 64, 0x80 + cp mod 64] @ r)
            = prepend (UTF16EncodeCodePoint cp) (Decode r)"
    proof (rule Decode_multi)
      show "utf8_code_point [0xE0 + cp div 4096, 0x80 + cp div 64 mod 64, 0x80 + cp mod 64]
              = Some cp"
        using 3 assms(2) by (simp add: is_continuation_def code_point_split3)
    qed (use d in \<open>simp_all add: leading_ones_def mod_64_less_128\<close>)
    with 3 show ?thesis by (simp add: utf8_octets_def)
  next
    case 4
    with assms(1) have d: "cp div 262144 < 8" by simp
    have "Decode (escape_octets [0xF0 + cp div 262144, 0x80 + cp div 4096 mod 64,
                                 0x80 + cp div 64 mod 64, 0x80 + cp mod 64] @ r)
            = prepend (UTF16EncodeCodePoint cp) (Decode r)"
    proof (rule Decode_multi)
      show "utf8_code_point [0xF0 + cp div 262144, 0x80 + cp div 4096 mod 64,
                             0x80 + cp div 64 mod 64, 0x80 + cp mod 64] = Some cp"
        using 4 assms(1) by (simp add: is_continuation_def code_point_split4)
    qed (use d in \<open>simp_all add: leading_ones_def mod_64_less_128\<close>)
    with 4 show ?thesis by (simp add: utf8_octets_def)
  qed
qed

lemma prepend_Inr_iff: "prepend p r = Inr e \<longleftrightarrow> (\<exists>e'. r = Inr e' \<and> e = p @ e')"
  by (auto simp: prepend_def split: sum.splits)

lemma prepend_Inr: "prepend p (Inr s) = Inr (p @ s)"
  by (simp add: prepend_def)

lemma replace_special_append:
  "replace_special (a @ b) = replace_special a @ replace_special b"
  by (simp add: replace_special_def)

lemma replace_special_Cons:
  "replace_special (c # s) =
     (if special c then 0x25 # toStringRadix 16 (unat c) else [c]) @ replace_special s"
  by (simp add: replace_special_def special_def)

lemma special_unat: "special c \<Longrightarrow> unat c < 48"
  by (auto simp: special_def)

lemma upper_hex_not_special: "d < 16 \<Longrightarrow> \<not> special (upper_hex d)"
proof
  assume "d < 16" "special (upper_hex d)"
  then have "unat (upper_hex d) < 48" by (simp add: special_unat)
  with \<open>d < 16\<close> show False by (simp add: unat_upper_hex split: if_splits)
qed

lemma replace_special_escape:
  "\<forall>b \<in> set bs. b < 256 \<Longrightarrow> replace_special (escape_octets bs) = escape_octets bs"
proof (induction bs)
  case Nil
  then show ?case by (simp add: escape_octets_Nil replace_special_def)
next
  case (Cons b bs)
  then have "b < 256" by simp
  then have "b div 16 < 16" "b mod 16 < 16" by simp_all
  then have "\<not> special (upper_hex (b div 16))" "\<not> special (upper_hex (b mod 16))"
    by (simp_all add: upper_hex_not_special)
  moreover have "\<not> special 0x25" by (simp add: special_def)
  ultimately show ?case
    using Cons by (simp add: escape_octets_Cons replace_special_Cons)
qed

lemma utf8_octets_bytes: "cp < 0x110000 \<Longrightarrow> \<forall>b \<in> set (utf8_octets cp). b < 256"
proof -
  assume a: "cp < 0x110000"
  have m: "\<And>x::nat. 128 + x mod 64 < 256"
    using mod_64_less_128 by (simp add: add.commute)
  have "cp < 0x800 \<Longrightarrow> cp div 64 < 32" "cp < 0x10000 \<Longrightarrow> cp div 4096 < 16"
    "cp div 262144 < 8"
    using a by simp_all
  then show ?thesis
    using m by (auto simp: utf8_octets_def)
qed

lemma Decode_special_chars:
  "Decode (0x25 # toStringRadix 16 (unat (0x21 :: 16 word)) @ r) = prepend [0x21] (Decode r)"
  "Decode (0x25 # toStringRadix 16 (unat (0x27 :: 16 word)) @ r) = prepend [0x27] (Decode r)"
  "Decode (0x25 # toStringRadix 16 (unat (0x28 :: 16 word)) @ r) = prepend [0x28] (Decode r)"
  "Decode (0x25 # toStringRadix 16 (unat (0x29 :: 16 word)) @ r) = prepend [0x29] (Decode r)"
  "Decode (0x25 # toStringRadix 16 (unat (0x2A :: 16 word)) @ r) = prepend [0x2A] (Decode r)"
  by (simp_all add: toStringRadix.simps digit_char_def ParseHexOctet_def hex_value_def
      leading_ones_def)

lemma Decode_special:
  assumes "special c"
  shows "Decode (0x25 # toStringRadix 16 (unat c) @ r) = prepend [c] (Decode r)"
proof -
  from assms have "c = 0x21 \<or> c = 0x27 \<or> c = 0x28 \<or> c = 0x29 \<or> c = 0x2A"
    by (simp add: special_def)
  then show ?thesis
    using Decode_special_chars [of r] by (elim disjE) (simp_all only:)
qed

lemma unescaped_not_percent: "unescaped c \<Longrightarrow> c \<noteq> 0x25"
  by (auto simp: unescaped_def)

lemma UTF16EncodeCodePoint_unit: "UTF16EncodeCodePoint (unat (c :: 16 word)) = [c]"
  using unat_lt_16 [of c] by (simp add: UTF16EncodeCodePoint_def)

lemma surrogate_pair_bounds:
  assumes "is_leading_surrogate c" "is_trailing_surrogate d"
  shows "0x10000 \<le> UTF16SurrogatePairToCodePoint c d"
    and "UTF16SurrogatePairToCodePoint c d < 0x110000"
proof -
  have "unat c - 0xD800 < 0x400" "unat d - 0xDC00 < 0x400"
    using assms by (auto simp: is_leading_surrogate_def is_trailing_surrogate_def)
  then have "(unat c - 0xD800) * 0x400 \<le> 0x3FF * 0x400"
    by simp
  with \<open>unat d - 0xDC00 < 0x400\<close>
  show "UTF16SurrogatePairToCodePoint c d < 0x110000"
    unfolding UTF16SurrogatePairToCodePoint_def by linarith
  show "0x10000 \<le> UTF16SurrogatePairToCodePoint c d"
    by (simp add: UTF16SurrogatePairToCodePoint_def)
qed

lemma UTF16EncodeCodePoint_pair:
  assumes "is_leading_surrogate c" "is_trailing_surrogate d"
  shows "UTF16EncodeCodePoint (UTF16SurrogatePairToCodePoint c d) = [c, d]"
proof -
  define a where "a = unat c - 0xD800"
  define b where "b = unat d - 0xDC00"
  have ab: "unat c = a + 0xD800" "unat d = b + 0xDC00" "b < 0x400"
    using assms by (auto simp: a_def b_def is_leading_surrogate_def is_trailing_surrogate_def)
  have cp: "UTF16SurrogatePairToCodePoint c d - 0x10000 = a * 0x400 + b"
    by (simp add: UTF16SurrogatePairToCodePoint_def a_def b_def)
  have "(a * 0x400 + b) div 0x400 = a" "(a * 0x400 + b) mod 0x400 = b"
    using ab(3) by simp_all
  then have "(UTF16SurrogatePairToCodePoint c d - 0x10000) div 0x400 + 0xD800 = unat c"
    "(UTF16SurrogatePairToCodePoint c d - 0x10000) mod 0x400 + 0xDC00 = unat d"
    using cp ab by simp_all
  moreover have "\<not> UTF16SurrogatePairToCodePoint c d \<le> 0xFFFF"
    using surrogate_pair_bounds(1) [OF assms] by simp
  ultimately show ?thesis
    by (simp add: UTF16EncodeCodePoint_def)
qed

lemma unescaped_not_surrogate:
  "unescaped c \<Longrightarrow> \<not> is_leading_surrogate c \<and> \<not> is_trailing_surrogate c"
  by (auto simp: unescaped_def is_leading_surrogate_def is_trailing_surrogate_def)

lemma Decode_replace_escape:
  assumes "cp < 0x110000" "\<not> (0xD800 \<le> cp \<and> cp \<le> 0xDFFF)"
  shows "Decode (replace_special (escape_octets (utf8_octets cp) @ e))
           = prepend (UTF16EncodeCodePoint cp) (Decode (replace_special e))"
  using assms
  by (simp add: replace_special_append replace_special_escape utf8_octets_bytes
      Decode_escape_code_point)

lemma Decode_replace_unescaped:
  assumes "unescaped c"
  shows "Decode (replace_special (c # e)) = prepend [c] (Decode (replace_special e))"
proof (cases "special c")
  case True
  then show ?thesis
    using Decode_special [of c "replace_special e"] by (simp add: replace_special_Cons)
next
  case False
  then show ?thesis
    using unescaped_not_percent [OF assms] by (simp add: replace_special_Cons)
qed

lemma Decode_replace_Encode:
  "Encode s = Inr e \<Longrightarrow> Decode (replace_special e) = Inr s"
proof (induction s arbitrary: e rule: Encode.induct)
  case 1
  then show ?case by (simp add: replace_special_def)
next
  case (2 c s)
  show ?case
  proof (cases "unescaped c")
    case True
    with "2.prems" obtain e' where e': "Encode s = Inr e'" "e = c # e'"
      by (auto simp: prepend_Inr_iff)
    from "2.IH"(1) [OF True e'(1)] show ?thesis
      using True e'(2) by (simp add: Decode_replace_unescaped prepend_Inr)
  next
    case False
    note nu = False
    from "2.prems" nu have nt: "\<not> is_trailing_surrogate c"
      by (auto split: if_splits)
    show ?thesis
    proof (cases "is_leading_surrogate c")
      case True
      with "2.prems" nu nt obtain d s' e' where
        s: "s = d # s'" and d: "is_trailing_surrogate d" and e': "Encode s' = Inr e'"
        and e: "e = escape_octets (utf8_octets (UTF16SurrogatePairToCodePoint c d)) @ e'"
        by (auto simp: prepend_Inr_iff split: list.splits if_splits)
      have b: "UTF16SurrogatePairToCodePoint c d < 0x110000"
        "\<not> (0xD800 \<le> UTF16SurrogatePairToCodePoint c d
            \<and> UTF16SurrogatePairToCodePoint c d \<le> 0xDFFF)"
        using surrogate_pair_bounds [OF True d] by simp_all
      from "2.IH"(2) [OF nu nt True s d e'] have "Decode (replace_special e') = Inr s'" .
      then show ?thesis
        using s e by (simp add: Decode_replace_escape [OF b] UTF16EncodeCodePoint_pair [OF True d]
            prepend_Inr)
    next
      case False
      with "2.prems" nu nt obtain e' where e': "Encode s = Inr e'"
        and e: "e = escape_octets (utf8_octets (unat c)) @ e'"
        by (auto simp: prepend_Inr_iff)
      have b: "unat c < 0x110000" "\<not> (0xD800 \<le> unat c \<and> unat c \<le> 0xDFFF)"
        using unat_lt_16 [of c] nt False
        by (auto simp: is_leading_surrogate_def is_trailing_surrogate_def)
      from "2.IH"(3) [OF nu nt False e'] have "Decode (replace_special e') = Inr s" .
      then show ?thesis
        using e by (simp add: Decode_replace_escape [OF b] UTF16EncodeCodePoint_unit prepend_Inr)
    qed
  qed
qed

lemma leading_not_trailing: "is_leading_surrogate c \<Longrightarrow> \<not> is_trailing_surrogate c"
  by (simp add: is_leading_surrogate_def is_trailing_surrogate_def)

lemma Encode_well_formed: "well_formed s \<Longrightarrow> \<exists>e. Encode s = Inr e"
proof (induction s rule: Encode.induct)
  case 1
  then show ?case by simp
next
  case (2 c s)
  show ?case
  proof (cases "unescaped c")
    case True
    with "2.prems" have "well_formed s"
      by (simp add: unescaped_not_surrogate)
    from "2.IH"(1) [OF True this] obtain e where "Encode s = Inr e" ..
    with True show ?thesis by (simp add: prepend_Inr)
  next
    case False
    note nu = False
    have nt: "\<not> is_trailing_surrogate c"
      using "2.prems" leading_not_trailing [of c] by (cases "is_leading_surrogate c") simp_all
    show ?thesis
    proof (cases "is_leading_surrogate c")
      case True
      with "2.prems" obtain d s' where
        s: "s = d # s'" and d: "is_trailing_surrogate d" and w: "well_formed s'"
        by (cases s) simp_all
      from "2.IH"(2) [OF nu nt True s d w] obtain e where "Encode s' = Inr e" ..
      with nu nt True s d show ?thesis by (simp add: prepend_Inr)
    next
      case False
      with "2.prems" have "well_formed s" by simp
      from "2.IH"(3) [OF nu nt False this] obtain e where "Encode s = Inr e" ..
      with nu nt False show ?thesis by (simp add: prepend_Inr)
    qed
  qed
qed

text \<open>On a string with a surrogate that has no partner the encoding throws.\<close>

lemma prepend_Inl_iff: "prepend p r = Inl e \<longleftrightarrow> r = Inl e"
  by (simp add: prepend_def split: sum.splits)

lemma Encode_Inl: "Encode s = Inl e \<Longrightarrow> e = URIError"
proof (induction s rule: Encode.induct)
  case 1
  then show ?case by simp
next
  case (2 c s)
  show ?case
  proof (cases "unescaped c")
    case True
    with "2.prems" have "Encode s = Inl e" by (simp add: prepend_Inl_iff)
    from "2.IH"(1) [OF True this] show ?thesis .
  next
    case False
    note nu = False
    show ?thesis
    proof (cases "is_trailing_surrogate c")
      case True
      with "2.prems" nu show ?thesis by simp
    next
      case False
      note nt = False
      show ?thesis
      proof (cases "is_leading_surrogate c")
        case True
        note ld = True
        show ?thesis
        proof (cases s)
          case Nil
          with "2.prems" nu nt ld show ?thesis by simp
        next
          case (Cons d s')
          show ?thesis
          proof (cases "is_trailing_surrogate d")
            case True
            with "2.prems" nu nt ld Cons have "Encode s' = Inl e"
              by (simp add: prepend_Inl_iff)
            from "2.IH"(2) [OF nu nt ld Cons True this] show ?thesis .
          next
            case False
            with "2.prems" nu nt ld Cons show ?thesis by simp
          qed
        qed
      next
        case False
        with "2.prems" nu nt have "Encode s = Inl e" by (simp add: prepend_Inl_iff)
        from "2.IH"(3) [OF nu nt False this] show ?thesis .
      qed
    qed
  qed
qed

lemma Encode_Inr_well_formed: "Encode s = Inr e \<Longrightarrow> well_formed s"
proof (induction s arbitrary: e rule: Encode.induct)
  case 1
  then show ?case by simp
next
  case (2 c s)
  show ?case
  proof (cases "unescaped c")
    case True
    with "2.prems" obtain e' where "Encode s = Inr e'"
      by (auto simp: prepend_Inr_iff)
    from "2.IH"(1) [OF True this] True show ?thesis
      by (simp add: unescaped_not_surrogate)
  next
    case False
    note nu = False
    from "2.prems" nu have nt: "\<not> is_trailing_surrogate c"
      by (auto split: if_splits)
    show ?thesis
    proof (cases "is_leading_surrogate c")
      case True
      with "2.prems" nu nt obtain d s' e' where
        s: "s = d # s'" and d: "is_trailing_surrogate d" and e': "Encode s' = Inr e'"
        by (auto simp: prepend_Inr_iff split: list.splits if_splits)
      from "2.IH"(2) [OF nu nt True s d e'] True s d show ?thesis
        by simp
    next
      case False
      with "2.prems" nu nt obtain e' where "Encode s = Inr e'"
        by (auto simp: prepend_Inr_iff)
      from "2.IH"(3) [OF nu nt False this] nt False show ?thesis
        by simp
    qed
  qed
qed

lemma Encode_ill_formed: "\<not> well_formed s \<Longrightarrow> Encode s = Inl URIError"
proof -
  assume a: "\<not> well_formed s"
  show ?thesis
  proof (cases "Encode s")
    case (Inl e)
    then show ?thesis using Encode_Inl by simp
  next
    case (Inr e)
    then show ?thesis using Encode_Inr_well_formed a by blast
  qed
qed

section \<open>Properties of the navigation decision\<close>

text \<open>
  C1 (amended).  A top-level navigation (\<open>frameId\<close> 0, a tab id other than -1) of a tab
  whose stored group \<open>G1\<close> is a truthy value (line 65 takes a falsy one, such as 0 or the
  empty string, for no group) to a domain \<open>D\<close> with the settings
  \<open>{group: G2, neverAsk: NA}\<close>, the tab holding no exemption for \<open>D\<close>.  When \<open>NA\<close> is
  \<open>false\<close> and \<open>G2\<close> differs from \<open>G1\<close>, the encoding of the URL succeeds on a
  well-formed URL string and the result is the redirect to
  \<^verbatim>\<open>confirm.html?url=<encoded>&groupId=<G2>&tabId=<tab>\<close>.  When \<open>G2\<close> is \<open>G1\<close>, and when
  \<open>NA\<close> is \<open>true\<close>, the request proceeds.
\<close>

theorem onBeforeRequest_decides:
  assumes "frameId options = 0" and "tabId options \<noteq> - 1"
    and "url_hostname env (url options) = Some D"
    and "storage_local w (lit ''page:'' @ D) = Some (Page \<lparr>group = G2, neverAsk = NA\<rparr>)"
    and "getTabValue w (tabId options) (lit ''group-id'') = G1" and "truthy G1"
    and "\<not> truthy (isExempt w (tabId options) D)"
  shows "(NA = JBool False \<and> G2 \<noteq> G1 \<and> well_formed (url options) \<longrightarrow>
           (\<exists>encoded. encodeURL (url options) = Inr encoded \<and>
              fst (onBeforeRequest env options w) =
                Inr (Redirect (getURL env (lit ''/background/confirm.html'')
                       @ lit ''?url='' @ encoded
                       @ lit ''&groupId='' @ ToString env G2
                       @ lit ''&tabId='' @ ToString env (JNum (tabId options))))))
       \<and> (G2 = G1 \<longrightarrow> fst (onBeforeRequest env options w) = Inr Proceed)
       \<and> (NA = JBool True \<longrightarrow> fst (onBeforeRequest env options w) = Inr Proceed)"
proof (intro conjI impI)
  assume a: "NA = JBool False \<and> G2 \<noteq> G1 \<and> well_formed (url options)"
  then obtain e where e: "Encode (url options) = Inr e"
    using Encode_well_formed by blast
  then have "encodeURL (url options) = Inr (replace_special e)"
    by (simp add: encodeURL_def encodeURIComponent_def)
  with assms a
  show "\<exists>encoded. encodeURL (url options) = Inr encoded \<and>
          fst (onBeforeRequest env options w) =
            Inr (Redirect (getURL env (lit ''/background/confirm.html'')
                   @ lit ''?url='' @ encoded
                   @ lit ''&groupId='' @ ToString env G2
                   @ lit ''&tabId='' @ ToString env (JNum (tabId options))))"
    by (auto simp: onBeforeRequest_def)
next
  assume "G2 = G1"
  with assms show "fst (onBeforeRequest env options w) = Inr Proceed"
    by (simp add: onBeforeRequest_def)
next
  assume "NA = JBool True"
  with assms show "fst (onBeforeRequest env options w) = Inr Proceed"
    by (simp add: onBeforeRequest_def)
qed

lemma example_encoded: "encodeURL (lit ''http://d/'') = Inr (lit ''http%3A%2F%2Fd%2F'')"
  by (simp add: encodeURL_def encodeURIComponent_def lit_def unescaped_def prepend_def
      replace_special_def special_def is_leading_surrogate_def is_trailing_surrogate_def
      utf8_octets_def escape_octets_def upper_hex_def)

theorem onBeforeRequest_decides_witness:
  "frameId example_options = 0 \<and> tabId example_options \<noteq> - 1
   \<and> url_hostname example_env (url example_options) = Some (lit ''d'')
   \<and> storage_local example_world (lit ''page:'' @ lit ''d'')
       = Some (Page \<lparr>group = JStr (lit ''g2''), neverAsk = JBool False\<rparr>)
   \<and> getTabValue example_world (tabId example_options) (lit ''group-id'') = JStr (lit ''g1'')
   \<and> truthy (JStr (lit ''g1''))
   \<and> \<not> truthy (isExempt example_world (tabId example_options) (lit ''d''))
   \<and> JStr (lit ''g2'') \<noteq> JStr (lit ''g1'') \<and> well_formed (url example_options)
   \<and> fst (onBeforeRequest example_env example_options example_world)
       = Inr (Redirect (lit
           ''moz-extension://x/background/confirm.html?url=http%3A%2F%2Fd%2F&groupId=g2&tabId=7''))"
proof -
  have h1: "frameId example_options = 0" and h2: "tabId example_options \<noteq> - 1"
    by (simp_all add: example_options_def)
  have h3: "url_hostname example_env (url example_options) = Some (lit ''d'')"
    by (simp add: example_env_def example_options_def)
  have h4: "storage_local example_world (lit ''page:'' @ lit ''d'')
              = Some (Page \<lparr>group = JStr (lit ''g2''), neverAsk = JBool False\<rparr>)"
    by (simp add: example_world_def fresh_def lit_def)
  have h5: "getTabValue example_world (tabId example_options) (lit ''group-id'')
              = JStr (lit ''g1'')"
    by (simp add: getTabValue_def example_world_def fresh_def example_options_def)
  have h6: "truthy (JStr (lit ''g1''))"
    by (simp add: lit_def)
  have h7: "\<not> truthy (isExempt example_world (tabId example_options) (lit ''d''))"
    by (simp add: isExempt_def example_world_def fresh_def)
  have h8: "JStr (lit ''g2'') \<noteq> JStr (lit ''g1'')"
    by (simp add: lit_def)
  have h9: "well_formed (url example_options)"
    by (simp add: example_options_def lit_def is_leading_surrogate_def
        is_trailing_surrogate_def)
  have u: "toStringRadix 10 7 = [55]"
    by (simp add: toStringRadix.simps digit_char_def)
  from onBeforeRequest_decides [OF h1 h2 h3 h4 h5 h6 h7] h8 h9
  obtain e where e1: "encodeURL (url example_options) = Inr e"
    and e2: "fst (onBeforeRequest example_env example_options example_world)
               = Inr (Redirect (getURL example_env (lit ''/background/confirm.html'')
                   @ lit ''?url='' @ e
                   @ lit ''&groupId='' @ ToString example_env (JStr (lit ''g2''))
                   @ lit ''&tabId='' @ ToString example_env (JNum (tabId example_options))))"
    by blast
  from e1 have e: "e = lit ''http%3A%2F%2Fd%2F''"
    by (simp add: example_encoded example_options_def)
  have s: "getURL example_env (lit ''/background/confirm.html'')
             @ lit ''?url='' @ lit ''http%3A%2F%2Fd%2F''
             @ lit ''&groupId='' @ ToString example_env (JStr (lit ''g2''))
             @ lit ''&tabId='' @ ToString example_env (JNum (tabId example_options))
           = lit ''moz-extension://x/background/confirm.html?url=http%3A%2F%2Fd%2F&groupId=g2&tabId=7''"
    by (simp add: example_env_def example_options_def u lit_def)
  from e2 have "fst (onBeforeRequest example_env example_options example_world)
          = Inr (Redirect (lit
              ''moz-extension://x/background/confirm.html?url=http%3A%2F%2Fd%2F&groupId=g2&tabId=7''))"
    unfolding e s .
  with h1 h2 h3 h4 h5 h6 h7 h8 h9 show ?thesis
    by blast
qed

text \<open>
  Without the condition on \<open>G1\<close> the statement fails: tab 7 has the group 0 stored, the
  domain \<^verbatim>\<open>d\<close> has the settings \<open>{group: "g2", neverAsk: false}\<close>, the tab holds no
  exemption, the groups differ, and the request proceeds.
\<close>

theorem onBeforeRequest_group_zero_proceeds:
  "frameId example_options = 0 \<and> tabId example_options \<noteq> - 1
   \<and> url_hostname example_env (url example_options) = Some (lit ''d'')
   \<and> storage_local example_world_group0 (lit ''page:'' @ lit ''d'')
       = Some (Page \<lparr>group = JStr (lit ''g2''), neverAsk = JBool False\<rparr>)
   \<and> tab_values example_world_group0 (tabId example_options, lit ''group-id'') = Some (JNum 0)
   \<and> isExempt example_world_group0 (tabId example_options) (lit ''d'') = JUndefined
   \<and> JStr (lit ''g2'') \<noteq> JNum 0
   \<and> well_formed (url example_options)
   \<and> fst (onBeforeRequest example_env example_options example_world_group0) = Inr Proceed"
proof -
  have "storage_local example_world_group0 (lit ''page:'' @ lit ''d'')
          = Some (Page \<lparr>group = JStr (lit ''g2''), neverAsk = JBool False\<rparr>)"
    by (simp add: example_world_group0_def example_world_def fresh_def lit_def)
  moreover have "well_formed (url example_options)"
    by (simp add: example_options_def lit_def is_leading_surrogate_def
        is_trailing_surrogate_def)
  moreover have "fst (onBeforeRequest example_env example_options example_world_group0)
                   = Inr Proceed"
    by (simp add: onBeforeRequest_def example_env_def example_options_def
        example_world_group0_def example_world_def fresh_def isExempt_def getTabValue_def
        Let_def)
  ultimately show ?thesis
    by (simp add: example_options_def example_env_def example_world_group0_def
        example_world_def fresh_def isExempt_def)
qed

text \<open>
  C4.  A navigation to a domain for which the settings store has no record proceeds,
  whatever the tab, its group and its exemptions.
\<close>

theorem onBeforeRequest_no_settings:
  assumes "url_hostname env (url options) = Some D"
    and "storage_local w (lit ''page:'' @ D) = None"
  shows "fst (onBeforeRequest env options w) = Inr Proceed"
  using assms by (simp add: onBeforeRequest_def)

theorem onBeforeRequest_no_settings_witness:
  "url_hostname example_env (url example_options) = Some (lit ''d'')
   \<and> storage_local (example_world\<lparr>storage_local := Map.empty\<rparr>) (lit ''page:'' @ lit ''d'') = None
   \<and> fst (onBeforeRequest example_env example_options
            (example_world\<lparr>storage_local := Map.empty\<rparr>)) = Inr Proceed"
proof -
  have h1: "url_hostname example_env (url example_options) = Some (lit ''d'')"
    by (simp add: example_env_def example_options_def)
  have h2: "storage_local (example_world\<lparr>storage_local := Map.empty\<rparr>) (lit ''page:'' @ lit ''d'')
              = None"
    by simp
  from onBeforeRequest_no_settings [OF h1 h2] h1 h2 show ?thesis
    by blast
qed

text \<open>
  C10.  The decision changes nothing: whatever the request and the state, and whether
  the result is to proceed, a redirect or an exception, the state after the call is the
  state before it; in particular the exemptions, the values of tabs and windows and the
  stored settings are.
\<close>

theorem onBeforeRequest_reads_only:
  "snd (onBeforeRequest env options w) = w
   \<and> exemptTabs_props (snd (onBeforeRequest env options w)) = exemptTabs_props w
   \<and> exemptTabs_keys (snd (onBeforeRequest env options w)) = exemptTabs_keys w
   \<and> tab_values (snd (onBeforeRequest env options w)) = tab_values w
   \<and> window_values (snd (onBeforeRequest env options w)) = window_values w
   \<and> storage_local (snd (onBeforeRequest env options w)) = storage_local w"
proof -
  have "snd (onBeforeRequest env options w) = w"
    by (simp add: onBeforeRequest_def Let_def split: option.split sum.split)
  then show ?thesis by simp
qed

theorem onBeforeRequest_reads_only_witness:
  "snd (onBeforeRequest example_env example_options example_world) = example_world
   \<and> storage_local (snd (onBeforeRequest example_env example_options example_world))
        (lit ''page:d'')
       = Some (Page \<lparr>group = JStr (lit ''g2''), neverAsk = JBool False\<rparr>)"
proof -
  have "storage_local example_world (lit ''page:d'')
          = Some (Page \<lparr>group = JStr (lit ''g2''), neverAsk = JBool False\<rparr>)"
    by (simp add: example_world_def fresh_def)
  with onBeforeRequest_reads_only [where env = example_env and options = example_options
      and w = example_world]
  show ?thesis by simp
qed

section \<open>Properties of the exemption tracker\<close>

text \<open>
  C2 (the code departs from it).  The message \<^verbatim>\<open>invalidateExempt\<close> deletes an entry
  of the Map \<^verbatim>\<open>_exemptTabs\<close>, and the exemptions are properties of that object: in
  every state the message leaves every exemption in place, and every navigation is
  decided after it as it was before it.  So a tab that was granted an exemption for a
  domain still proceeds to it after \<^verbatim>\<open>invalidateExempt\<close>, where the claim has it
  redirected again.
\<close>

theorem invalidateExempt_keeps_exemption:
  "isExempt (onPortMessage (message\<lparr>m_method := lit ''invalidateExempt''\<rparr>) w) tab D
     = isExempt w tab D
   \<and> fst (onBeforeRequest env options
            (onPortMessage (message\<lparr>m_method := lit ''invalidateExempt''\<rparr>) w))
     = fst (onBeforeRequest env options w)"
  by (simp add: onPortMessage_def isExempt_def onBeforeRequest_def getTabValue_def Let_def
      split: option.split sum.split)

text \<open>
  The failing run: tab 7 of group \<^verbatim>\<open>g1\<close> navigates to the domain \<^verbatim>\<open>d\<close> of group
  \<^verbatim>\<open>g2\<close> and is redirected; the confirmation page's message with \<^verbatim>\<open>exempt: true\<close>
  grants the exemption and the same navigation proceeds; after \<^verbatim>\<open>invalidateExempt\<close>
  for tab 7 the tab is still exempt and the navigation still proceeds.
\<close>

theorem invalidateExempt_keeps_exemption_witness:
  "(\<exists>u. fst (onBeforeRequest example_env example_options example_world) = Inr (Redirect u))
   \<and> (\<exists>w. onMessage example_env example_message example_world = Inr w
        \<and> fst (onBeforeRequest example_env example_options w) = Inr Proceed
        \<and> isExempt (onPortMessage (example_message\<lparr>m_method := lit ''invalidateExempt''\<rparr>) w)
             7 (lit ''d'') = JBool True
        \<and> fst (onBeforeRequest example_env example_options
                 (onPortMessage (example_message\<lparr>m_method := lit ''invalidateExempt''\<rparr>) w))
            = Inr Proceed)"
proof
  show "\<exists>u. fst (onBeforeRequest example_env example_options example_world) = Inr (Redirect u)"
    by (simp add: onBeforeRequest_def example_env_def example_options_def example_world_def
        fresh_def isExempt_def getTabValue_def Let_def lit_def
        encodeURL_def encodeURIComponent_def unescaped_def prepend_def
        is_leading_surrogate_def is_trailing_surrogate_def)
next
  define granted where
    "granted = redirectTab example_message
                 (example_world\<lparr>exemptTabs_props := [7 \<mapsto> {lit ''d''}]\<rparr>)"
  have g: "onMessage example_env example_message example_world = Inr granted"
    unfolding granted_def
    by (simp add: onMessage_def example_message_def example_env_def exemptTab_def
        example_world_def fresh_def) (simp add: lit_def)
  have e: "isExempt granted 7 (lit ''d'') = JBool True"
    by (simp add: granted_def isExempt_def redirectTab_def)
  then have p: "fst (onBeforeRequest example_env example_options granted) = Inr Proceed"
    by (simp add: onBeforeRequest_def example_env_def example_options_def)
  from invalidateExempt_keeps_exemption
         [where message = example_message and w = granted and tab = 7 and D = "lit ''d''"
            and env = example_env and options = example_options] e p
  have "isExempt (onPortMessage (example_message\<lparr>m_method := lit ''invalidateExempt''\<rparr>) granted)
          7 (lit ''d'') = JBool True
        \<and> fst (onBeforeRequest example_env example_options
                 (onPortMessage (example_message\<lparr>m_method := lit ''invalidateExempt''\<rparr>) granted))
            = Inr Proceed"
    by simp
  with g p
  show "\<exists>w. onMessage example_env example_message example_world = Inr w
        \<and> fst (onBeforeRequest example_env example_options w) = Inr Proceed
        \<and> isExempt (onPortMessage (example_message\<lparr>m_method := lit ''invalidateExempt''\<rparr>) w)
             7 (lit ''d'') = JBool True
        \<and> fst (onBeforeRequest example_env example_options
                 (onPortMessage (example_message\<lparr>m_method := lit ''invalidateExempt''\<rparr>) w))
            = Inr Proceed"
    by blast
qed

text \<open>
  C3 (the code departs from it).  Granting a tab an exemption for \<open>D1\<close> and then one for
  another domain \<open>D2\<close>, in a state where the Map has no entry for the tab (nothing in the
  script ever makes one): both grants return normally, but the second finds no Map
  entry, since the first wrote a property and not an entry, and assigns a new
  one-element set over the first.  Afterwards the tab is exempt for \<open>D2\<close> and
  \<^verbatim>\<open>isExempt(tab, D1)\<close> is \<^verbatim>\<open>false\<close>, where the claim has both \<^verbatim>\<open>true\<close>.
\<close>

theorem exemptTab_second_grant_overwrites:
  assumes "tab \<notin> exemptTabs_keys w" and "D1 \<noteq> D2"
  shows "\<exists>w1 w2. exemptTab tab D1 w = Inr w1 \<and> exemptTab tab D2 w1 = Inr w2
           \<and> isExempt w1 tab D1 = JBool True
           \<and> isExempt w2 tab D2 = JBool True
           \<and> isExempt w2 tab D1 = JBool False"
  using assms by (simp add: exemptTab_def isExempt_def)

theorem exemptTab_second_grant_overwrites_witness:
  "1 \<notin> exemptTabs_keys fresh \<and> lit ''a'' \<noteq> lit ''b''
   \<and> (\<exists>w1 w2. exemptTab 1 (lit ''a'') fresh = Inr w1 \<and> exemptTab 1 (lit ''b'') w1 = Inr w2
         \<and> isExempt w1 1 (lit ''a'') = JBool True
         \<and> isExempt w2 1 (lit ''b'') = JBool True
         \<and> isExempt w2 1 (lit ''a'') = JBool False)"
proof -
  have h1: "1 \<notin> exemptTabs_keys fresh"
    by (simp add: fresh_def)
  have h2: "lit ''a'' \<noteq> lit ''b''"
    by (simp add: lit_def)
  from exemptTab_second_grant_overwrites [OF h1 h2] h1 h2 show ?thesis
    by blast
qed

section \<open>The round trip of the destination URL\<close>

text \<open>
  C5.  For every well-formed URL string (every surrogate paired, as in any serialised
  URL), \<^verbatim>\<open>encodeURL\<close> returns, and \<^verbatim>\<open>decodeURIComponent\<close> applied to its result
  returns the original string; the characters \<^verbatim>\<open>! ' ( ) *\<close> are among the code units
  this covers.  (On any other string \<^verbatim>\<open>encodeURIComponent\<close> throws, see
  \<open>Encode_ill_formed\<close>.)
\<close>

theorem encodeURL_roundtrip:
  assumes "well_formed destination"
  shows "\<exists>encoded. encodeURL destination = Inr encoded
           \<and> decodeURIComponent encoded = Inr destination"
proof -
  from Encode_well_formed [OF assms] obtain e where e: "Encode destination = Inr e" ..
  then have "Decode (replace_special e) = Inr destination" by (rule Decode_replace_Encode)
  with e show ?thesis
    by (simp add: encodeURL_def encodeURIComponent_def decodeURIComponent_def)
qed

theorem encodeURL_roundtrip_witness:
  "well_formed [0x2F, 0x21, 0x27, 0x28, 0x29, 0x2A, 0xE9]
   \<and> (\<exists>encoded. encodeURL [0x2F, 0x21, 0x27, 0x28, 0x29, 0x2A, 0xE9] = Inr encoded
         \<and> decodeURIComponent encoded = Inr [0x2F, 0x21, 0x27, 0x28, 0x29, 0x2A, 0xE9])"
proof -
  have h: "well_formed [0x2F, 0x21, 0x27, 0x28, 0x29, 0x2A, 0xE9]"
    by (simp add: is_leading_surrogate_def is_trailing_surrogate_def)
  from encodeURL_roundtrip [OF h] h show ?thesis
    by blast
qed

section \<open>Properties of the other handlers\<close>

text \<open>
  C6.  After \<^verbatim>\<open>onTabCreated\<close> the new tab's group is what the window's active group
  was.  When the window had no active-group value, a request of the new tab to any URL
  with a host name proceeds.
\<close>

theorem onTabCreated_inherits:
  "getTabValue (onTabCreated info w) (info_id info) (lit ''group-id'')
     = getWindowValue w (info_windowId info) (lit ''active-group-id'')
   \<and> (window_values w (info_windowId info, lit ''active-group-id'') = None
        \<and> tabId options = info_id info \<and> url_hostname env (url options) \<noteq> None
      \<longrightarrow> fst (onBeforeRequest env options (onTabCreated info w)) = Inr Proceed)"
proof (intro conjI impI)
  show "getTabValue (onTabCreated info w) (info_id info) (lit ''group-id'')
          = getWindowValue w (info_windowId info) (lit ''active-group-id'')"
    by (simp add: onTabCreated_def setTabValue_def getTabValue_def)
next
  assume a: "window_values w (info_windowId info, lit ''active-group-id'') = None
        \<and> tabId options = info_id info \<and> url_hostname env (url options) \<noteq> None"
  then have "getTabValue (onTabCreated info w) (tabId options) (lit ''group-id'') = JUndefined"
    by (simp add: onTabCreated_def setTabValue_def getTabValue_def getWindowValue_def)
  with a show "fst (onBeforeRequest env options (onTabCreated info w)) = Inr Proceed"
    by (auto simp: onBeforeRequest_def Let_def split: option.split)
qed

theorem onTabCreated_inherits_witness:
  "getTabValue (onTabCreated \<lparr>info_id = 8, info_windowId = 1\<rparr> example_world) 8 (lit ''group-id'')
     = JStr (lit ''g3'')
   \<and> window_values example_world (2, lit ''active-group-id'') = None
   \<and> tabId (example_options\<lparr>tabId := 9\<rparr>) = 9
   \<and> url_hostname example_env (url (example_options\<lparr>tabId := 9\<rparr>)) \<noteq> None
   \<and> fst (onBeforeRequest example_env (example_options\<lparr>tabId := 9\<rparr>)
            (onTabCreated \<lparr>info_id = 9, info_windowId = 2\<rparr> example_world)) = Inr Proceed"
proof -
  have h1: "window_values example_world (2, lit ''active-group-id'') = None"
    by (simp add: example_world_def fresh_def)
  have h2: "tabId (example_options\<lparr>tabId := 9\<rparr>) = info_id \<lparr>info_id = 9, info_windowId = 2\<rparr>"
    by simp
  have h3: "url_hostname example_env (url (example_options\<lparr>tabId := 9\<rparr>)) \<noteq> None"
    by (simp add: example_env_def example_options_def)
  have g: "getWindowValue example_world 1 (lit ''active-group-id'') = JStr (lit ''g3'')"
    by (simp add: getWindowValue_def example_world_def fresh_def)
  from onTabCreated_inherits [where info = "\<lparr>info_id = 8, info_windowId = 1\<rparr>"
      and w = example_world]
  have "getTabValue (onTabCreated \<lparr>info_id = 8, info_windowId = 1\<rparr> example_world) 8
          (lit ''group-id'') = JStr (lit ''g3'')"
    by (simp add: g)
  moreover
  from onTabCreated_inherits [where info = "\<lparr>info_id = 9, info_windowId = 2\<rparr>"
      and w = example_world and options = "example_options\<lparr>tabId := 9\<rparr>"
      and env = example_env] h1 h2 h3
  have "fst (onBeforeRequest example_env (example_options\<lparr>tabId := 9\<rparr>)
              (onTabCreated \<lparr>info_id = 9, info_windowId = 2\<rparr> example_world)) = Inr Proceed"
    by simp
  ultimately show ?thesis
    using h1 h3 by simp
qed

text \<open>
  C7.  A request to set \<^verbatim>\<open>neverAsk\<close> for a domain without a record returns normally
  and leaves the whole state, and so the settings store, as it was: no record appears.
  The same holds for the \<^verbatim>\<open>neverAsk\<close> message that makes the request.
\<close>

theorem toggleNeverAsk_without_record:
  assumes "storage_local w (lit ''page:'' @ D) = None"
  shows "toggleNeverAsk D v w = Inr w
         \<and> (m_method message = lit ''neverAsk'' \<and> m_hostname message = D
              \<longrightarrow> onMessage env message w = Inr w)"
  using assms by (simp add: toggleNeverAsk_def onMessage_def)

theorem toggleNeverAsk_without_record_witness:
  "storage_local example_world (lit ''page:'' @ lit ''e'') = None
   \<and> toggleNeverAsk (lit ''e'') (JBool True) example_world = Inr example_world
   \<and> onMessage example_env
        (example_message\<lparr>m_method := lit ''neverAsk'', m_hostname := lit ''e''\<rparr>) example_world
       = Inr example_world"
proof -
  have h: "storage_local example_world (lit ''page:'' @ lit ''e'') = None"
    by (simp add: example_world_def fresh_def lit_def)
  from toggleNeverAsk_without_record [OF h, where v = "JBool True"
      and message = "example_message\<lparr>m_method := lit ''neverAsk'', m_hostname := lit ''e''\<rparr>"
      and env = example_env] h
  show ?thesis by simp
qed

text \<open>
  C8.  Moving tab \<open>T\<close> to group \<open>g\<close> twice in a row: the tab's group is \<open>g\<close> after the
  first call and after the second.  The second call issues the navigation again and
  posts the \<^verbatim>\<open>moveTabGroup\<close> notice on every connected port, and it leaves the values of
  tabs and windows, the settings store, the exemptions and the ports as the first call
  left them.
\<close>

theorem moveTabToGroup_twice:
  "getTabValue (moveTabToGroup (message\<lparr>m_tabId := T, m_groupId := Some g\<rparr>) w) T (lit ''group-id'')
     = g
   \<and> getTabValue (moveTabToGroup (message\<lparr>m_tabId := T, m_groupId := Some g\<rparr>)
        (moveTabToGroup (message\<lparr>m_tabId := T, m_groupId := Some g\<rparr>) w)) T (lit ''group-id'')
     = g
   \<and> calls (moveTabToGroup (message\<lparr>m_tabId := T, m_groupId := Some g\<rparr>)
        (moveTabToGroup (message\<lparr>m_tabId := T, m_groupId := Some g\<rparr>) w))
     = calls (moveTabToGroup (message\<lparr>m_tabId := T, m_groupId := Some g\<rparr>) w)
       @ TabsUpdate T (m_redirectUrl message)
       # map (\<lambda>(win, port). PortPostMessage port (MoveTabGroup T g))
           (ports (moveTabToGroup (message\<lparr>m_tabId := T, m_groupId := Some g\<rparr>) w))
   \<and> moveTabToGroup (message\<lparr>m_tabId := T, m_groupId := Some g\<rparr>)
        (moveTabToGroup (message\<lparr>m_tabId := T, m_groupId := Some g\<rparr>) w)
     = (moveTabToGroup (message\<lparr>m_tabId := T, m_groupId := Some g\<rparr>) w)
         \<lparr>calls := calls (moveTabToGroup (message\<lparr>m_tabId := T, m_groupId := Some g\<rparr>)
                     (moveTabToGroup (message\<lparr>m_tabId := T, m_groupId := Some g\<rparr>) w)),
          pending := pending (moveTabToGroup (message\<lparr>m_tabId := T, m_groupId := Some g\<rparr>) w)
                     @ [m_originalUrl message]\<rparr>"
  by (simp add: moveTabToGroup_def postMessage_def redirectTab_def setTabValue_def
      getTabValue_def groupId_of_def)

theorem moveTabToGroup_twice_witness:
  "getTabValue
     (moveTabToGroup (example_message\<lparr>m_tabId := 7, m_groupId := Some (JStr (lit ''g2''))\<rparr>)
       (moveTabToGroup (example_message\<lparr>m_tabId := 7, m_groupId := Some (JStr (lit ''g2''))\<rparr>)
         example_world)) 7 (lit ''group-id'')
     = JStr (lit ''g2'')
   \<and> calls
       (moveTabToGroup (example_message\<lparr>m_tabId := 7, m_groupId := Some (JStr (lit ''g2''))\<rparr>)
         (moveTabToGroup (example_message\<lparr>m_tabId := 7, m_groupId := Some (JStr (lit ''g2''))\<rparr>)
           example_world))
     = [TabsUpdate 7 (lit ''http://d/''), PortPostMessage 0 (MoveTabGroup 7 (JStr (lit ''g2''))),
        TabsUpdate 7 (lit ''http://d/''), PortPostMessage 0 (MoveTabGroup 7 (JStr (lit ''g2'')))]"
proof -
  have c: "calls (moveTabToGroup
                   (example_message\<lparr>m_tabId := 7, m_groupId := Some (JStr (lit ''g2''))\<rparr>)
                   example_world)
             = [TabsUpdate 7 (lit ''http://d/''),
                PortPostMessage 0 (MoveTabGroup 7 (JStr (lit ''g2'')))]"
    and p: "ports (moveTabToGroup
                   (example_message\<lparr>m_tabId := 7, m_groupId := Some (JStr (lit ''g2''))\<rparr>)
                   example_world) = [(1, 0)]"
    by (simp_all add: moveTabToGroup_def postMessage_def redirectTab_def setTabValue_def
        groupId_of_def example_world_def example_message_def fresh_def)
  have m: "m_redirectUrl example_message = lit ''http://d/''"
    by (simp add: example_message_def)
  from moveTabToGroup_twice [where message = example_message and T = 7
      and g = "JStr (lit ''g2'')" and w = example_world]
  show ?thesis
    by (simp add: c p m)
qed

text \<open>
  C9.  \<^verbatim>\<open>redirectTab\<close> itself issues the navigation and nothing else; the deletion of
  the history entry is the call of the callback, made when the navigation's promise is
  fulfilled, and so it comes after the navigation in the sequence of calls.  When the
  promise is rejected no deletion is made.  A redirect with a group change goes through
  \<^verbatim>\<open>moveTabToGroup\<close>: there too the navigation is issued in the call (followed by the
  notices) and the deletion comes later, at the end of the calls made so far.
\<close>

theorem redirectTab_issues_then_deletes:
  "calls (redirectTab message w)
     = calls w @ [TabsUpdate (m_tabId message) (m_redirectUrl message)]
   \<and> pending (redirectTab message w) = pending w @ [m_originalUrl message]
   \<and> calls (settle (length (pending w)) True (redirectTab message w))
     = calls w @ [TabsUpdate (m_tabId message) (m_redirectUrl message),
                  HistoryDeleteUrl (m_originalUrl message)]
   \<and> calls (settle (length (pending w)) False (redirectTab message w))
     = calls w @ [TabsUpdate (m_tabId message) (m_redirectUrl message)]
   \<and> calls (moveTabToGroup message w)
     = calls w @ TabsUpdate (m_tabId message) (m_redirectUrl message)
         # map (\<lambda>(win, port).
                  PortPostMessage port (MoveTabGroup (m_tabId message) (groupId_of message)))
             (ports w)
   \<and> calls (settle (length (pending w)) True (moveTabToGroup message w))
     = calls (moveTabToGroup message w) @ [HistoryDeleteUrl (m_originalUrl message)]"
  by (simp add: redirectTab_def settle_def Let_def moveTabToGroup_def postMessage_def
      setTabValue_def)

theorem redirectTab_issues_then_deletes_witness:
  "calls (redirectTab example_message example_world) = [TabsUpdate 7 (lit ''http://d/'')]
   \<and> calls (settle 0 True (redirectTab example_message example_world))
     = [TabsUpdate 7 (lit ''http://d/''), HistoryDeleteUrl (lit ''moz-extension://x/c'')]
   \<and> calls (settle 0 False (redirectTab example_message example_world))
     = [TabsUpdate 7 (lit ''http://d/'')]"
proof -
  have h: "calls example_world = []" "pending example_world = []"
    by (simp_all add: example_world_def fresh_def)
  from redirectTab_issues_then_deletes [where message = example_message and w = example_world]
  show ?thesis
    by (simp add: h example_message_def)
qed

end
